theory Spec2Isabelle
  imports Main "HOL-Library.Sublist"
begin

section \<open>Strings\<close>

text \<open>
  Column names are byte strings. \<open>str.lower()\<close> is modelled on the ASCII range: the
  letters \<open>A\<close>..\<open>Z\<close> (codes 65..90) move to \<open>a\<close>..\<open>z\<close>, every other byte stays.
\<close>

definition lower_char :: "char \<Rightarrow> char" where
  "lower_char c =
     (let n = (of_char c :: nat) in if 65 \<le> n \<and> n \<le> 90 then char_of (n + 32) else c)"

definition lower :: "string \<Rightarrow> string" where
  "lower s = map lower_char s"

text \<open>\<open>sep.join(xs)\<close>\<close>

fun join :: "string \<Rightarrow> string list \<Rightarrow> string" where
  "join sep [] = []"
| "join sep [x] = x"
| "join sep (x # y # ys) = x @ sep @ join sep (y # ys)"

text \<open>\<open>sub in s\<close> and \<open>s.endswith(suf)\<close> on strings\<close>

definition str_in :: "string \<Rightarrow> string \<Rightarrow> bool" where
  "str_in sub s = sublist sub s"

definition endswith :: "string \<Rightarrow> string \<Rightarrow> bool" where
  "endswith s suf = suffix suf s"

abbreviation DQ :: char where
  "DQ \<equiv> CHR 0x22"

abbreviation SQ :: char where
  "SQ \<equiv> CHR 0x27"

abbreviation NL :: char where
  "NL \<equiv> CHR 0x0A"

section \<open>build\_duckdb.py: the date expression\<close>

datatype py_error = FileNotFoundError | KeyError | DbError

definition DATE_CANDIDATES :: "string list" where
  "DATE_CANDIDATES =
     [''pickup_date'', ''date'', ''service_date'',
      ''pickup_datetime'', ''tpep_pickup_datetime'', ''lpep_pickup_datetime'',
      ''fhv_pickup_datetime'', ''fhvhv_pickup_datetime'']"

text \<open>
  \<open>lower = {c.lower(): c for c in cols}\<close>: the comprehension inserts the columns from
  left to right, so a later column replaces an earlier one with the same lower-cased name.
\<close>

definition lower_dict :: "string list \<Rightarrow> (string \<rightharpoonup> string)" where
  "lower_dict cols = fold (\<lambda>c m. m(lower c \<mapsto> c)) cols Map.empty"

text \<open>\<open>any(ch in orig for ch in ' -"')\<close>\<close>

definition has_special :: "string \<Rightarrow> bool" where
  "has_special orig = list_ex (\<lambda>ch. ch \<in> set orig) [CHR '' '', CHR ''-'', DQ]"

text \<open>The column reference of the first loop (line 44) and of the second (line 51).\<close>

definition quoted_pref :: "string \<Rightarrow> string" where
  "quoted_pref orig =
     (if lower orig = ''date'' \<or> has_special orig
      then ''t.'' @ [DQ] @ orig @ [DQ] else ''t.'' @ orig)"

definition quoted_generic :: "string \<Rightarrow> string" where
  "quoted_generic orig =
     (if has_special orig then ''t.'' @ [DQ] @ orig @ [DQ] else ''t.'' @ orig)"

definition try_cast_date :: "string \<Rightarrow> string" where
  "try_cast_date q = ''TRY_CAST('' @ q @ '' AS DATE)''"

definition try_cast_key :: "string \<Rightarrow> string" where
  "try_cast_key orig =
     ''TRY_CAST(STRPTIME(CAST(t.'' @ orig @ '' AS VARCHAR), '' @ [SQ] @ ''%Y%m%d''
       @ [SQ] @ '') AS DATE)''"

text \<open>
  Loop 1, over \<open>DATE_CANDIDATES\<close>. The subscript \<open>lower[cname.lower()]\<close> raises
  \<open>KeyError\<close> on a missing key; the model keeps that branch.
\<close>

fun preferred_loop ::
  "(string \<rightharpoonup> string) \<Rightarrow> string list \<Rightarrow> string list \<Rightarrow> py_error + string list" where
  "preferred_loop lower_d [] exprs = Inr exprs"
| "preferred_loop lower_d (cname # rest) exprs =
     (if lower_d (lower cname) \<noteq> None
      then (case lower_d (lower cname) of
              None \<Rightarrow> Inl KeyError
            | Some orig \<Rightarrow>
                preferred_loop lower_d rest (exprs @ [try_cast_date (quoted_pref orig)]))
      else preferred_loop lower_d rest exprs)"

text \<open>Loop 2, over the columns: the test of line 50.\<close>

definition is_generic_date :: "string \<Rightarrow> bool" where
  "is_generic_date orig =
     (let low = lower orig in
      str_in ''date'' low \<or> str_in ''datetime'' low
      \<or> low \<in> set [''dt'', ''ds'', ''day''] \<or> endswith low ''_date'')"

fun generic_loop :: "string list \<Rightarrow> string list \<Rightarrow> string list" where
  "generic_loop [] exprs = exprs"
| "generic_loop (orig # rest) exprs =
     (if is_generic_date orig
      then generic_loop rest (exprs @ [try_cast_date (quoted_generic orig)])
      else generic_loop rest exprs)"

text \<open>Loop 3, over the columns: the test of line 57.\<close>

definition is_date_key :: "string \<Rightarrow> bool" where
  "is_date_key orig =
     (let low = lower orig in low = ''date_key'' \<or> endswith low ''_date_key'')"

fun key_loop :: "string list \<Rightarrow> string list \<Rightarrow> string list" where
  "key_loop [] exprs = exprs"
| "key_loop (orig # rest) exprs =
     (if is_date_key orig
      then key_loop rest (exprs @ [try_cast_key orig])
      else key_loop rest exprs)"

definition build_date_expr :: "string list \<Rightarrow> py_error + string" where
  "build_date_expr cols =
     (let lower_d = lower_dict cols in
      case preferred_loop lower_d DATE_CANDIDATES [] of
        Inl e \<Rightarrow> Inl e
      | Inr exprs1 \<Rightarrow>
          (let exprs2 = (if exprs1 = [] then generic_loop cols exprs1 else exprs1);
               exprs3 = (if exprs2 = [] then key_loop cols exprs2 else exprs2)
           in Inr (if exprs3 \<noteq> [] then ''COALESCE('' @ join '', '' exprs3 @ '')''
                   else ''NULL::DATE'')))"

section \<open>build\_duckdb.py: the build\<close>

definition DATA_DIR :: string where
  "DATA_DIR = ''data''"

definition FILES :: "(string \<times> string) list" where
  "FILES =
     [(''dim_taxi_zone'', ''01_dim_taxi_zone/*.parquet''),
      (''pu_zone_daily'', ''02_fact_trips_sample/*.parquet''),
      (''daily_service_metrics'', ''03_daily_service_metrics/*.parquet''),
      (''zone_pair_flow'', ''04_zone_pair_flow/*.parquet''),
      (''payment_mix'', ''05_payment_mix/*.parquet''),
      (''vendor_share'', ''06_vendor_share/*.parquet''),
      (''tip_hotspots'', ''07_tip_hotspots/*.parquet''),
      (''airport_traffic_daily'', ''08_airport_traffic_daily/*.parquet''),
      (''service_efficiency'', ''09_service_efficiency/*.parquet''),
      (''rush_hour_pickups'', ''10_rush_hour_pickups/*.parquet'')]"

text \<open>\<open>os.path.join(a, b)\<close> on POSIX paths.\<close>

definition path_join :: "string \<Rightarrow> string \<Rightarrow> string" where
  "path_join a b =
     (if b \<noteq> [] \<and> hd b = CHR ''/'' then b
      else if a = [] \<or> last a = CHR ''/'' then a @ b
      else a @ ''/'' @ b)"

text \<open>
  \<open>glob.glob\<close> reads the file system, which the build never writes to under
  \<open>DATA_DIR\<close>: it is a parameter, from a pattern to the paths that match it.
\<close>

definition resolve_source :: "(string \<Rightarrow> string list) \<Rightarrow> string \<Rightarrow> py_error + string \<times> nat" where
  "resolve_source glob pattern_rel =
     (let pat = path_join DATA_DIR pattern_rel;
          parts = glob pat
      in if parts = [] then Inl FileNotFoundError else Inr (pat, length parts))"

text \<open>
  A statement is its SQL text and its parameter list. The file \<open>OUT_DB\<close> is absent
  (\<open>None\<close>) or holds a database, written as the statements that ran on it so far.
  \<open>attempted\<close> records every statement handed to \<open>con.execute\<close>, in order, whether it
  succeeded or raised.
\<close>

type_synonym stmt = "string \<times> string list"

record world =
  out_db :: "stmt list option"
  attempted :: "stmt list"

text \<open>
  The database engine is a parameter: given the database and a statement it raises
  (\<open>None\<close>) or answers with the fetched values (for \<open>PRAGMA table_info\<close>, the column
  names: the field \<open>row[1]\<close> of each row).
\<close>

type_synonym engine = "stmt list \<Rightarrow> stmt \<Rightarrow> string list option"

definition con_execute :: "engine \<Rightarrow> stmt \<Rightarrow> world \<Rightarrow> (py_error + string list) \<times> world" where
  "con_execute eng s w =
     (let w' = w\<lparr>attempted := attempted w @ [s]\<rparr> in
      case out_db w of
        None \<Rightarrow> (Inl DbError, w')
      | Some db \<Rightarrow>
          (case eng db s of
             None \<Rightarrow> (Inl DbError, w')
           | Some res \<Rightarrow> (Inr res, w'\<lparr>out_db := Some (db @ [s])\<rparr>)))"

definition create_table_sql :: "string \<Rightarrow> string" where
  "create_table_sql tbl =
     ''CREATE OR REPLACE TABLE '' @ tbl
       @ '' AS SELECT * FROM read_parquet(?, union_by_name=true)''"

definition count_sql :: "string \<Rightarrow> string" where
  "count_sql tbl = ''SELECT COUNT(*) FROM '' @ tbl"

text \<open>Step 1: the loop over \<open>FILES\<close> that creates the tables.\<close>

fun create_tables ::
  "engine \<Rightarrow> (string \<Rightarrow> string list) \<Rightarrow> (string \<times> string) list \<Rightarrow> world
     \<Rightarrow> py_error option \<times> world" where
  "create_tables eng glob [] w = (None, w)"
| "create_tables eng glob ((tbl, rel_glob) # rest) w =
     (case resolve_source glob rel_glob of
        Inl e \<Rightarrow> (Some e, w)
      | Inr (pat, nfiles) \<Rightarrow>
          (case con_execute eng (create_table_sql tbl, [pat]) w of
             (Inl e, w1) \<Rightarrow> (Some e, w1)
           | (Inr r1, w1) \<Rightarrow>
               (case con_execute eng (count_sql tbl, []) w1 of
                  (Inl e, w2) \<Rightarrow> (Some e, w2)
                | (Inr r2, w2) \<Rightarrow> create_tables eng glob rest w2)))"

definition pragma_sql :: "string \<Rightarrow> string" where
  "pragma_sql tbl = ''PRAGMA table_info('' @ [SQ] @ tbl @ [SQ] @ '')''"

definition indent16 :: string where
  "indent16 = ''                ''"

definition indent12 :: string where
  "indent12 = ''            ''"

text \<open>The two view statements of step 2, with the line breaks of the source.\<close>

definition view_sql :: "string \<Rightarrow> bool \<Rightarrow> string \<Rightarrow> string" where
  "view_sql tbl has_pd date_expr =
     (if has_pd
      then [NL] @ indent16 @ ''CREATE OR REPLACE VIEW v_'' @ tbl @ '' AS'' @ [NL]
           @ indent16 @ ''SELECT t.* EXCLUDE (pickup_date), '' @ date_expr
           @ '' AS pickup_date'' @ [NL]
           @ indent16 @ ''FROM '' @ tbl @ '' AS t'' @ [NL] @ indent12
      else [NL] @ indent16 @ ''CREATE OR REPLACE VIEW v_'' @ tbl @ '' AS'' @ [NL]
           @ indent16 @ ''SELECT t.*, '' @ date_expr @ '' AS pickup_date'' @ [NL]
           @ indent16 @ ''FROM '' @ tbl @ '' AS t'' @ [NL] @ indent12)"

definition has_pickup_date :: "string list \<Rightarrow> bool" where
  "has_pickup_date cols = list_ex (\<lambda>c. lower c = ''pickup_date'') cols"

text \<open>Step 2: the loop over \<open>FILES\<close> that creates the views.\<close>

fun create_views ::
  "engine \<Rightarrow> (string \<times> string) list \<Rightarrow> world \<Rightarrow> py_error option \<times> world" where
  "create_views eng [] w = (None, w)"
| "create_views eng ((tbl, uu) # rest) w =
     (case con_execute eng (pragma_sql tbl, []) w of
        (Inl e, w1) \<Rightarrow> (Some e, w1)
      | (Inr cols, w1) \<Rightarrow>
          (case build_date_expr cols of
             Inl e \<Rightarrow> (Some e, w1)
           | Inr date_expr \<Rightarrow>
               (case con_execute eng (view_sql tbl (has_pickup_date cols) date_expr, []) w1 of
                  (Inl e, w2) \<Rightarrow> (Some e, w2)
                | (Inr r, w2) \<Rightarrow> create_views eng rest w2)))"

text \<open>Step 3: \<open>try_idx\<close> turns every exception of the statement into a normal return.\<close>

definition try_idx :: "engine \<Rightarrow> string \<Rightarrow> world \<Rightarrow> py_error option \<times> world" where
  "try_idx eng sql w =
     (case con_execute eng (sql, []) w of
        (Inl e, w') \<Rightarrow> (None, w')
      | (Inr r, w') \<Rightarrow> (None, w'))"

definition INDEX_TABLES :: "string list" where
  "INDEX_TABLES =
     [''daily_service_metrics'', ''payment_mix'', ''airport_traffic_daily'',
      ''service_efficiency'', ''rush_hour_pickups'', ''pu_zone_daily'',
      ''zone_pair_flow'', ''tip_hotspots'', ''vendor_share'']"

definition idx_date_sql :: "string \<Rightarrow> string" where
  "idx_date_sql tbl =
     ''CREATE INDEX IF NOT EXISTS idx_'' @ tbl @ ''_date ON '' @ tbl @ ''(pickup_date)''"

definition idx_svc_sql :: "string \<Rightarrow> string" where
  "idx_svc_sql tbl =
     ''CREATE INDEX IF NOT EXISTS idx_'' @ tbl @ ''_svc  ON '' @ tbl @ ''(service_type)''"

fun index_loop :: "engine \<Rightarrow> string list \<Rightarrow> world \<Rightarrow> py_error option \<times> world" where
  "index_loop eng [] w = (None, w)"
| "index_loop eng (tbl # rest) w =
     (case try_idx eng (idx_date_sql tbl) w of
        (Some e, w1) \<Rightarrow> (Some e, w1)
      | (None, w1) \<Rightarrow>
          (case try_idx eng (idx_svc_sql tbl) w1 of
             (Some e, w2) \<Rightarrow> (Some e, w2)
           | (None, w2) \<Rightarrow> index_loop eng rest w2))"

definition span_sql :: string where
  "span_sql =
     [NL] @ ''        WITH all_dates AS ('' @ [NL]
     @ ''          SELECT pickup_date FROM v_daily_service_metrics WHERE pickup_date IS NOT NULL'' @ [NL]
     @ ''          UNION ALL SELECT pickup_date FROM v_airport_traffic_daily WHERE pickup_date IS NOT NULL'' @ [NL]
     @ ''          UNION ALL SELECT pickup_date FROM v_service_efficiency    WHERE pickup_date IS NOT NULL'' @ [NL]
     @ ''          UNION ALL SELECT pickup_date FROM v_rush_hour_pickups     WHERE pickup_date IS NOT NULL'' @ [NL]
     @ ''          UNION ALL SELECT pickup_date FROM v_pu_zone_daily         WHERE pickup_date IS NOT NULL'' @ [NL]
     @ ''        )'' @ [NL]
     @ ''        SELECT MIN(pickup_date), MAX(pickup_date), COUNT(*) FROM all_dates'' @ [NL]
     @ ''    ''"

text \<open>
  \<open>main\<close>: \<open>os.remove\<close> deletes an existing \<open>OUT_DB\<close>, \<open>duckdb.connect\<close> then creates
  the file anew as an empty database, and the four steps run on it. The result is the
  exception that ended the run, if any, and the world as the run left it.
\<close>

definition main :: "engine \<Rightarrow> (string \<Rightarrow> string list) \<Rightarrow> world \<Rightarrow> py_error option \<times> world" where
  "main eng glob w0 =
     (let w1 = (if out_db w0 \<noteq> None then w0\<lparr>out_db := None\<rparr> else w0);
          w2 = w1\<lparr>out_db := Some []\<rparr>
      in case create_tables eng glob FILES w2 of
           (Some e, w3) \<Rightarrow> (Some e, w3)
         | (None, w3) \<Rightarrow>
             (case create_views eng FILES w3 of
                (Some e, w4) \<Rightarrow> (Some e, w4)
              | (None, w4) \<Rightarrow>
                  (case index_loop eng INDEX_TABLES w4 of
                     (Some e, w5) \<Rightarrow> (Some e, w5)
                   | (None, w5) \<Rightarrow>
                       (case con_execute eng (span_sql, []) w5 of
                          (Inl e, w6) \<Rightarrow> (Some e, w6)
                        | (Inr r, w6) \<Rightarrow> (None, w6)))))"

section \<open>The view statement as a query\<close>

text \<open>
  What the view of step 2 contains is decided by the engine, from the statement text.
  This section gives the statement a structure (the date expression as a term, the
  select list as \<open>t.*\<close> with or without \<open>EXCLUDE\<close>), renders that structure back to the
  text the build executes, and reads it as a query over a table: one output row per
  table row, the selected columns followed by the value of the date expression.
\<close>

datatype cast_term = CastDate bool string

datatype date_term = Coalesce "cast_term list" | NullDate

datatype star = StarAll | StarExclude string

record view_stmt =
  v_table :: string
  v_star :: star
  v_date :: date_term

fun render_cast :: "cast_term \<Rightarrow> string" where
  "render_cast (CastDate quoted col) =
     try_cast_date (if quoted then ''t.'' @ [DQ] @ col @ [DQ] else ''t.'' @ col)"

fun render_date :: "date_term \<Rightarrow> string" where
  "render_date (Coalesce es) = ''COALESCE('' @ join '', '' (map render_cast es) @ '')''"
| "render_date NullDate = ''NULL::DATE''"

fun render_star :: "star \<Rightarrow> string" where
  "render_star StarAll = ''t.*''"
| "render_star (StarExclude col) = ''t.* EXCLUDE ('' @ col @ '')''"

definition render_view :: "view_stmt \<Rightarrow> string" where
  "render_view v =
     [NL] @ indent16 @ ''CREATE OR REPLACE VIEW v_'' @ v_table v @ '' AS'' @ [NL]
     @ indent16 @ ''SELECT '' @ render_star (v_star v) @ '', '' @ render_date (v_date v)
     @ '' AS pickup_date'' @ [NL]
     @ indent16 @ ''FROM '' @ v_table v @ '' AS t'' @ [NL] @ indent12"

text \<open>
  The statement that step 2 builds for a table with the columns \<open>cols\<close>: the candidates
  of the first loop if there are any, else those of the second loop.
\<close>

definition preferred_terms :: "string list \<Rightarrow> cast_term list" where
  "preferred_terms cols =
     map (\<lambda>cname. let orig = last (filter (\<lambda>c. lower c = cname) cols)
                   in CastDate (lower orig = ''date'' \<or> has_special orig) orig)
         (filter (\<lambda>cname. list_ex (\<lambda>c. lower c = cname) cols) DATE_CANDIDATES)"

definition generic_terms :: "string list \<Rightarrow> cast_term list" where
  "generic_terms cols = map (\<lambda>orig. CastDate (has_special orig) orig) (filter is_generic_date cols)"

definition date_term_of :: "string list \<Rightarrow> date_term" where
  "date_term_of cols =
     (if preferred_terms cols \<noteq> [] then Coalesce (preferred_terms cols)
      else if generic_terms cols \<noteq> [] then Coalesce (generic_terms cols)
      else NullDate)"

definition view_stmt_of :: "string \<Rightarrow> string list \<Rightarrow> view_stmt" where
  "view_stmt_of tbl cols =
     \<lparr>v_table = tbl,
      v_star = (if has_pickup_date cols then StarExclude ''pickup_date'' else StarAll),
      v_date = date_term_of cols\<rparr>"

text \<open>
  Values, tables and evaluation. A table has column names and rows of values in column
  order; names are looked up without regard to case. \<open>TRY_CAST(x AS DATE)\<close> keeps a date
  and NULL; what it makes of any other value is the engine's parser, a parameter.
  \<open>COALESCE\<close> is its first argument that is not NULL.
\<close>

datatype sql_value = SqlNull | SqlDate int | SqlOther string

record table =
  t_cols :: "string list"
  t_rows :: "sql_value list list"

definition well_formed :: "table \<Rightarrow> bool" where
  "well_formed t = list_all (\<lambda>row. length row = length (t_cols t)) (t_rows t)"

definition row_value :: "string list \<Rightarrow> sql_value list \<Rightarrow> string \<Rightarrow> sql_value" where
  "row_value cols row name =
     (case map_of (zip (map lower cols) row) (lower name) of
        None \<Rightarrow> SqlNull
      | Some v \<Rightarrow> v)"

definition cast_to_date :: "(string \<Rightarrow> int option) \<Rightarrow> sql_value \<Rightarrow> sql_value" where
  "cast_to_date parse v =
     (case v of
        SqlNull \<Rightarrow> SqlNull
      | SqlDate d \<Rightarrow> SqlDate d
      | SqlOther s \<Rightarrow> (case parse s of None \<Rightarrow> SqlNull | Some d \<Rightarrow> SqlDate d))"

fun coalesce :: "sql_value list \<Rightarrow> sql_value" where
  "coalesce [] = SqlNull"
| "coalesce (v # vs) = (if v = SqlNull then coalesce vs else v)"

fun eval_cast :: "(string \<Rightarrow> int option) \<Rightarrow> string list \<Rightarrow> sql_value list \<Rightarrow> cast_term \<Rightarrow> sql_value" where
  "eval_cast parse cols row (CastDate quoted col) = cast_to_date parse (row_value cols row col)"

fun eval_date :: "(string \<Rightarrow> int option) \<Rightarrow> string list \<Rightarrow> sql_value list \<Rightarrow> date_term \<Rightarrow> sql_value" where
  "eval_date parse cols row (Coalesce es) = coalesce (map (eval_cast parse cols row) es)"
| "eval_date parse cols row NullDate = SqlNull"

fun star_keeps :: "star \<Rightarrow> string \<Rightarrow> bool" where
  "star_keeps StarAll c = True"
| "star_keeps (StarExclude x) c = (lower c \<noteq> lower x)"

definition star_values :: "star \<Rightarrow> string list \<Rightarrow> sql_value list \<Rightarrow> sql_value list" where
  "star_values st cols row = map snd (filter (\<lambda>(c, v). star_keeps st c) (zip cols row))"

definition view_of :: "(string \<Rightarrow> int option) \<Rightarrow> view_stmt \<Rightarrow> table \<Rightarrow> table" where
  "view_of parse v t =
     \<lparr>t_cols = filter (star_keeps (v_star v)) (t_cols t) @ [''pickup_date''],
      t_rows = map (\<lambda>row. star_values (v_star v) (t_cols t) row
                            @ [eval_date parse (t_cols t) row (v_date v)])
                   (t_rows t)\<rparr>"

text \<open>A table without its columns named \<open>pickup_date\<close>.\<close>

definition without_pickup_date :: "table \<Rightarrow> table" where
  "without_pickup_date t =
     \<lparr>t_cols = filter (\<lambda>c. lower c \<noteq> ''pickup_date'') (t_cols t),
      t_rows = map (\<lambda>row. map snd (filter (\<lambda>(c, v). lower c \<noteq> ''pickup_date'')
                                          (zip (t_cols t) row)))
                   (t_rows t)\<rparr>"

text \<open>
  SQL's lexical form of the column reference \<open>t.<identifier>\<close>: a bare identifier is a
  letter or underscore followed by letters, digits and underscores; a quoted identifier
  is enclosed in double quotes, and a double quote inside it is written twice.
\<close>

definition ident_start :: "char \<Rightarrow> bool" where
  "ident_start c =
     (let n = (of_char c :: nat) in (65 \<le> n \<and> n \<le> 90) \<or> (97 \<le> n \<and> n \<le> 122) \<or> n = 95)"

definition ident_char :: "char \<Rightarrow> bool" where
  "ident_char c = (let n = (of_char c :: nat) in ident_start c \<or> (48 \<le> n \<and> n \<le> 57))"

fun quoted_rest :: "string \<Rightarrow> bool" where
  "quoted_rest [] = False"
| "quoted_rest [c] = (c = DQ)"
| "quoted_rest (c # d # cs) =
     (if c = DQ then d = DQ \<and> quoted_rest cs else quoted_rest (d # cs))"

fun valid_column_ref :: "string \<Rightarrow> bool" where
  "valid_column_ref (a # b # c # cs) =
     (a = CHR ''t'' \<and> b = CHR ''.''
      \<and> (if c = DQ then quoted_rest cs else ident_start c \<and> list_all ident_char cs))"
| "valid_column_ref uu = False"

section \<open>streamlit\_app.py: filter\_by\_date\_service\<close>

text \<open>
  A frame has column labels and rows; a row gives the cell under each label. Dates are
  day numbers. \<open>pd.to_datetime(..., errors="coerce")\<close> is pandas' parser, a parameter: the
  day of the parsed timestamp, or \<open>None\<close> for \<open>NaT\<close>.
\<close>

datatype cell = NaT | DateCell int | StrCell string

record frame =
  columns :: "string list"
  rows :: "(string \<Rightarrow> cell) list"

definition empty_frame :: "frame \<Rightarrow> bool" where
  "empty_frame df = (rows df = [] \<or> columns df = [])"

text \<open>\<open>pd_dates.dt.date\<close>, and the comparisons of a cell with a date (false on \<open>NaT\<close>).\<close>

definition dt_date :: "int option \<Rightarrow> cell" where
  "dt_date p = (case p of None \<Rightarrow> NaT | Some d \<Rightarrow> DateCell d)"

definition cell_ge :: "cell \<Rightarrow> int \<Rightarrow> bool" where
  "cell_ge c d = (case c of DateCell x \<Rightarrow> d \<le> x | _ \<Rightarrow> False)"

definition cell_le :: "cell \<Rightarrow> int \<Rightarrow> bool" where
  "cell_le c d = (case c of DateCell x \<Rightarrow> x \<le> d | _ \<Rightarrow> False)"

definition isin :: "cell \<Rightarrow> string list \<Rightarrow> bool" where
  "isin c services = (case c of StrCell s \<Rightarrow> s \<in> set services | _ \<Rightarrow> False)"

definition filter_by_date_service ::
  "(cell \<Rightarrow> int option) \<Rightarrow> frame \<Rightarrow> int \<Rightarrow> int \<Rightarrow> string list \<Rightarrow> frame" where
  "filter_by_date_service to_datetime df start_date end_date services =
     (if empty_frame df then df
      else
        let out = df;
            out1 =
              (if ''pickup_date'' \<in> set (columns out)
               then
                 let pd_dates = map (\<lambda>r. to_datetime (r ''pickup_date'')) (rows out) in
                 if list_ex (\<lambda>p. p \<noteq> None) pd_dates
                 then
                   let conv = out\<lparr>rows := map (\<lambda>r. r(''pickup_date'' :=
                                                 dt_date (to_datetime (r ''pickup_date''))))
                                               (rows out)\<rparr>
                   in conv\<lparr>rows := filter (\<lambda>r. cell_ge (r ''pickup_date'') start_date
                                               \<and> cell_le (r ''pickup_date'') end_date)
                                          (rows conv)\<rparr>
                 else out
               else out);
            out2 =
              (if ''service_type'' \<in> set (columns out1) \<and> services \<noteq> []
               then out1\<lparr>rows := filter (\<lambda>r. isin (r ''service_type'') services) (rows out1)\<rparr>
               else out1)
        in out2)"

section \<open>The loops of build\_date\_expr\<close>

lemma lower_dict_fold:
  "fold (\<lambda>c m. m(lower c \<mapsto> c)) cols m k =
     (if list_ex (\<lambda>c. lower c = k) cols
      then Some (last (filter (\<lambda>c. lower c = k) cols)) else m k)"
proof (induction cols arbitrary: m)
  case Nil
  then show ?case by simp
next
  case (Cons c cs)
  show ?case
  proof (cases "list_ex (\<lambda>c. lower c = k) cs")
    case True
    then have "filter (\<lambda>c. lower c = k) cs \<noteq> []"
      by (simp add: list_ex_iff filter_empty_conv)
    with True Cons.IH [of "m(lower c \<mapsto> c)"] show ?thesis by simp
  next
    case False
    then have "filter (\<lambda>c. lower c = k) cs = []"
      by (simp add: list_ex_iff filter_empty_conv)
    with False Cons.IH [of "m(lower c \<mapsto> c)"] show ?thesis by simp
  qed
qed

lemma lower_dict_lookup:
  "lower_dict cols k =
     (if list_ex (\<lambda>c. lower c = k) cols
      then Some (last (filter (\<lambda>c. lower c = k) cols)) else None)"
  by (simp add: lower_dict_def lower_dict_fold)

lemma preferred_loop_eq:
  "preferred_loop d cs exprs =
     Inr (exprs @ map (\<lambda>n. try_cast_date (quoted_pref (the (d (lower n)))))
                      (filter (\<lambda>n. d (lower n) \<noteq> None) cs))"
  by (induction cs arbitrary: exprs) auto

lemma generic_loop_eq:
  "generic_loop cols exprs =
     exprs @ map (\<lambda>c. try_cast_date (quoted_generic c)) (filter is_generic_date cols)"
  by (induction cols arbitrary: exprs) auto

lemma key_loop_eq:
  "key_loop cols exprs = exprs @ map try_cast_key (filter is_date_key cols)"
  by (induction cols arbitrary: exprs) auto

lemma lower_candidates: "map lower DATE_CANDIDATES = DATE_CANDIDATES"
  by code_simp

lemma lower_candidate:
  assumes "n \<in> set DATE_CANDIDATES"
  shows "lower n = n"
proof -
  have "map lower DATE_CANDIDATES = map id DATE_CANDIDATES"
    by (simp add: lower_candidates)
  with assms show ?thesis
    by (metis id_apply map_eq_conv)
qed

lemma preferred_loop_candidates:
  "preferred_loop (lower_dict cols) DATE_CANDIDATES [] =
     Inr (map (\<lambda>n. try_cast_date (quoted_pref (last (filter (\<lambda>c. lower c = n) cols))))
              (filter (\<lambda>n. list_ex (\<lambda>c. lower c = n) cols) DATE_CANDIDATES))"
proof -
  have f: "filter (\<lambda>n. lower_dict cols (lower n) \<noteq> None) DATE_CANDIDATES
         = filter (\<lambda>n. list_ex (\<lambda>c. lower c = n) cols) DATE_CANDIDATES"
    by (rule filter_cong) (simp_all add: lower_candidate lower_dict_lookup)
  have m: "map (\<lambda>n. try_cast_date (quoted_pref (the (lower_dict cols (lower n)))))
               (filter (\<lambda>n. list_ex (\<lambda>c. lower c = n) cols) DATE_CANDIDATES)
         = map (\<lambda>n. try_cast_date (quoted_pref (last (filter (\<lambda>c. lower c = n) cols))))
               (filter (\<lambda>n. list_ex (\<lambda>c. lower c = n) cols) DATE_CANDIDATES)"
    by (rule map_cong) (simp_all add: lower_candidate lower_dict_lookup)
  show ?thesis by (simp only: preferred_loop_eq f m append_Nil)
qed

lemma candidates_matched_empty:
  "filter (\<lambda>n. list_ex (\<lambda>c. lower c = n) cols) DATE_CANDIDATES = []
     \<longleftrightarrow> \<not> list_ex (\<lambda>c. lower c \<in> set DATE_CANDIDATES) cols"
  by (auto simp: filter_empty_conv list_ex_iff)

text \<open>The three cases of \<open>build_date_expr\<close>, one per loop that can fill \<open>exprs\<close>.\<close>

lemma build_date_expr_cases:
  "build_date_expr cols =
     Inr (if list_ex (\<lambda>c. lower c \<in> set DATE_CANDIDATES) cols
          then ''COALESCE('' @ join '', ''
                 (map (\<lambda>n. try_cast_date (quoted_pref (last (filter (\<lambda>c. lower c = n) cols))))
                      (filter (\<lambda>n. list_ex (\<lambda>c. lower c = n) cols) DATE_CANDIDATES)) @ '')''
          else if list_ex is_generic_date cols
          then ''COALESCE('' @ join '', ''
                 (map (\<lambda>c. try_cast_date (quoted_generic c)) (filter is_generic_date cols)) @ '')''
          else if list_ex is_date_key cols
          then ''COALESCE('' @ join '', '' (map try_cast_key (filter is_date_key cols)) @ '')''
          else ''NULL::DATE'')"
proof -
  have g: "filter is_generic_date cols = [] \<longleftrightarrow> \<not> list_ex is_generic_date cols"
    by (auto simp: filter_empty_conv list_ex_iff)
  have k: "filter is_date_key cols = [] \<longleftrightarrow> \<not> list_ex is_date_key cols"
    by (auto simp: filter_empty_conv list_ex_iff)
  have "build_date_expr cols =
          (case preferred_loop (lower_dict cols) DATE_CANDIDATES [] of
             Inl e \<Rightarrow> Inl e
           | Inr exprs1 \<Rightarrow>
               Inr (if exprs1 \<noteq> [] then ''COALESCE('' @ join '', '' exprs1 @ '')''
                    else if generic_loop cols [] \<noteq> []
                    then ''COALESCE('' @ join '', '' (generic_loop cols []) @ '')''
                    else if key_loop cols [] \<noteq> []
                    then ''COALESCE('' @ join '', '' (key_loop cols []) @ '')''
                    else ''NULL::DATE''))"
    by (simp add: build_date_expr_def Let_def split: sum.splits)
  then show ?thesis
    unfolding preferred_loop_candidates
    using candidates_matched_empty [of cols] g k
    by (simp add: generic_loop_eq key_loop_eq)
qed

lemma sublist_date_key: "suffix ''_date_key'' s \<Longrightarrow> sublist ''date'' s"
proof -
  assume "suffix ''_date_key'' s"
  then obtain p where "s = p @ ''_date_key''" by (auto simp: suffix_def)
  then have "s = (p @ ''_'') @ ''date'' @ ''_key''" by simp
  then show ?thesis unfolding sublist_def by blast
qed

lemma date_key_is_generic: "is_date_key c \<Longrightarrow> is_generic_date c"
proof -
  assume a: "is_date_key c"
  have "sublist ''date'' ''date_key''" by code_simp
  with a sublist_date_key [of "lower c"] show ?thesis
    by (auto simp: is_date_key_def is_generic_date_def str_in_def endswith_def Let_def)
qed

section \<open>Claims about the date expression\<close>

text \<open>
  C1. When some column matches a name of \<open>DATE_CANDIDATES\<close> without regard to case, the
  resolver returns the expression of the first loop and nothing of the second or third:
  \<open>COALESCE\<close> over one \<open>TRY_CAST(... AS DATE)\<close> for each entry of \<open>DATE_CANDIDATES\<close>
  that has a match, in the order of that list, so that an earlier entry is used before a
  later one. The list of matched entries is not empty. The column cast for an entry is
  the last column of the table with that lower-cased name.
\<close>

theorem preferred_tier_selected:
  assumes "list_ex (\<lambda>c. lower c \<in> set DATE_CANDIDATES) cols"
  shows "filter (\<lambda>n. list_ex (\<lambda>c. lower c = n) cols) DATE_CANDIDATES \<noteq> []
         \<and> build_date_expr cols =
             Inr (''COALESCE('' @ join '', ''
                    (map (\<lambda>n. try_cast_date (quoted_pref (last (filter (\<lambda>c. lower c = n) cols))))
                         (filter (\<lambda>n. list_ex (\<lambda>c. lower c = n) cols) DATE_CANDIDATES))
                  @ '')'')"
  using assms candidates_matched_empty [of cols] by (simp add: build_date_expr_cases)

theorem preferred_tier_selected_witness:
  "list_ex (\<lambda>c. lower c \<in> set DATE_CANDIDATES)
     [''trips'', ''Date'', ''tpep_pickup_datetime'', ''PICKUP_DATE'']
   \<and> build_date_expr [''trips'', ''Date'', ''tpep_pickup_datetime'', ''PICKUP_DATE''] =
       Inr (''COALESCE(TRY_CAST(t.PICKUP_DATE AS DATE), TRY_CAST(t.'' @ [DQ] @ ''Date'' @ [DQ]
            @ '' AS DATE), TRY_CAST(t.tpep_pickup_datetime AS DATE))'')"
proof -
  let ?cols = "[''trips'', ''Date'', ''tpep_pickup_datetime'', ''PICKUP_DATE'']"
  have h: "list_ex (\<lambda>c. lower c \<in> set DATE_CANDIDATES) ?cols"
    by code_simp
  have e: "''COALESCE('' @ join '', ''
             (map (\<lambda>n. try_cast_date (quoted_pref (last (filter (\<lambda>c. lower c = n) ?cols))))
                  (filter (\<lambda>n. list_ex (\<lambda>c. lower c = n) ?cols) DATE_CANDIDATES)) @ '')''
           = ''COALESCE(TRY_CAST(t.PICKUP_DATE AS DATE), TRY_CAST(t.'' @ [DQ] @ ''Date'' @ [DQ]
               @ '' AS DATE), TRY_CAST(t.tpep_pickup_datetime AS DATE))''"
    by code_simp
  from preferred_tier_selected [OF h] have
    "build_date_expr ?cols =
       Inr (''COALESCE('' @ join '', ''
             (map (\<lambda>n. try_cast_date (quoted_pref (last (filter (\<lambda>c. lower c = n) ?cols))))
                  (filter (\<lambda>n. list_ex (\<lambda>c. lower c = n) ?cols) DATE_CANDIDATES)) @ '')'')"
    by (rule conjunct2)
  then have "build_date_expr ?cols =
       Inr (''COALESCE(TRY_CAST(t.PICKUP_DATE AS DATE), TRY_CAST(t.'' @ [DQ] @ ''Date'' @ [DQ]
            @ '' AS DATE), TRY_CAST(t.tpep_pickup_datetime AS DATE))'')"
    by (simp only: e)
  with h show ?thesis by (rule conjI)
qed

text \<open>
  C6. When no column matches a name of \<open>DATE_CANDIDATES\<close> but some column passes the
  test of the second loop (its lower-cased name contains \<open>date\<close> or \<open>datetime\<close>, is one
  of \<open>dt\<close>, \<open>ds\<close>, \<open>day\<close>, or ends with \<open>_date\<close>), the resolver returns \<open>COALESCE\<close> over
  one \<open>TRY_CAST(... AS DATE)\<close> for each such column, in the order of the column list.
\<close>

theorem generic_tier_selected:
  assumes "\<not> list_ex (\<lambda>c. lower c \<in> set DATE_CANDIDATES) cols"
    and "list_ex is_generic_date cols"
  shows "build_date_expr cols =
           Inr (''COALESCE('' @ join '', ''
                  (map (\<lambda>c. try_cast_date (quoted_generic c)) (filter is_generic_date cols))
                @ '')'')"
  using assms by (simp add: build_date_expr_cases)

theorem generic_tier_selected_witness:
  "\<not> list_ex (\<lambda>c. lower c \<in> set DATE_CANDIDATES)
       [''trips'', ''my date'', ''Svc-Day'', ''DT'', ''order_date_key'']
   \<and> list_ex is_generic_date [''trips'', ''my date'', ''Svc-Day'', ''DT'', ''order_date_key'']
   \<and> build_date_expr [''trips'', ''my date'', ''Svc-Day'', ''DT'', ''order_date_key''] =
       Inr (''COALESCE(TRY_CAST(t.'' @ [DQ] @ ''my date'' @ [DQ]
            @ '' AS DATE), TRY_CAST(t.DT AS DATE), TRY_CAST(t.order_date_key AS DATE))'')"
proof -
  let ?cols = "[''trips'', ''my date'', ''Svc-Day'', ''DT'', ''order_date_key'']"
  have h1: "\<not> list_ex (\<lambda>c. lower c \<in> set DATE_CANDIDATES) ?cols"
    by code_simp
  have h2: "list_ex is_generic_date ?cols"
    by code_simp
  have e: "''COALESCE('' @ join '', ''
             (map (\<lambda>c. try_cast_date (quoted_generic c)) (filter is_generic_date ?cols)) @ '')''
           = ''COALESCE(TRY_CAST(t.'' @ [DQ] @ ''my date'' @ [DQ]
               @ '' AS DATE), TRY_CAST(t.DT AS DATE), TRY_CAST(t.order_date_key AS DATE))''"
    by code_simp
  have "build_date_expr ?cols =
       Inr (''COALESCE(TRY_CAST(t.'' @ [DQ] @ ''my date'' @ [DQ]
            @ '' AS DATE), TRY_CAST(t.DT AS DATE), TRY_CAST(t.order_date_key AS DATE))'')"
    using generic_tier_selected [OF h1 h2] by (simp only: e)
  with h1 h2 show ?thesis by blast
qed

text \<open>
  C7. The resolver returns an expression for every column list: the one subscript that
  could raise \<open>KeyError\<close> is guarded by the membership test before it. When no column
  passes the test of any of the three loops, the expression is \<open>NULL::DATE\<close>.
\<close>

theorem resolution_never_raises:
  "(\<exists>s. build_date_expr cols = Inr s)
   \<and> (\<not> list_ex (\<lambda>c. lower c \<in> set DATE_CANDIDATES) cols
        \<and> \<not> list_ex is_generic_date cols \<and> \<not> list_ex is_date_key cols
      \<longrightarrow> build_date_expr cols = Inr ''NULL::DATE'')"
  by (simp add: build_date_expr_cases)

theorem resolution_never_raises_witness:
  "\<not> list_ex (\<lambda>c. lower c \<in> set DATE_CANDIDATES) [''trips'', ''PULocationID'']
   \<and> \<not> list_ex is_generic_date [''trips'', ''PULocationID'']
   \<and> \<not> list_ex is_date_key [''trips'', ''PULocationID'']
   \<and> build_date_expr [''trips'', ''PULocationID''] = Inr ''NULL::DATE''"
proof -
  let ?cols = "[''trips'', ''PULocationID'']"
  have h1: "\<not> list_ex (\<lambda>c. lower c \<in> set DATE_CANDIDATES) ?cols" by code_simp
  have h2: "\<not> list_ex is_generic_date ?cols" by code_simp
  have h3: "\<not> list_ex is_date_key ?cols" by code_simp
  from resolution_never_raises [of ?cols] h1 h2 h3
  have "build_date_expr ?cols = Inr ''NULL::DATE''" by blast
  with h1 h2 h3 show ?thesis by blast
qed

text \<open>
  C2. A column named \<open>date_key\<close>, or ending in \<open>_date_key\<close>, contains \<open>date\<close>, so the
  second loop takes it and the third loop never runs on a list where it would add
  anything (\<open>date_key_is_generic\<close>). For the column list \<open>date_key\<close> alone, and for a list
  whose only date-like column is \<open>order_date_key\<close>, the resolver returns a plain
  \<open>TRY_CAST(... AS DATE)\<close> of the column and not the \<open>STRPTIME\<close> parse of \<open>%Y%m%d\<close>.
\<close>

theorem date_key_cast_not_parsed:
  "is_date_key ''date_key''
   \<and> build_date_expr [''date_key''] = Inr ''COALESCE(TRY_CAST(t.date_key AS DATE))''
   \<and> build_date_expr [''trips'', ''order_date_key''] =
       Inr ''COALESCE(TRY_CAST(t.order_date_key AS DATE))''"
  by code_simp

text \<open>
  A name with a blank or a hyphen and no double quote, and the name \<open>date\<close> in any
  case, is enclosed in double quotes and the reference is well formed.
\<close>

lemma quoted_rest_closing: "DQ \<notin> set s \<Longrightarrow> quoted_rest (s @ [DQ])"
  by (induction s rule: quoted_rest.induct) auto

lemma quoted_generic_valid:
  assumes "DQ \<notin> set orig" and "has_special orig"
  shows "valid_column_ref (quoted_generic orig)"
  using assms by (simp add: quoted_generic_def quoted_rest_closing)

lemma quoted_pref_valid:
  assumes "DQ \<notin> set orig" and "lower orig = ''date'' \<or> has_special orig"
  shows "valid_column_ref (quoted_pref orig)"
  using assms by (auto simp: quoted_pref_def quoted_rest_closing)

text \<open>
  C8. A name that contains a double quote is enclosed in double quotes with the quote
  inside left as it is, not doubled: for the column \<open>pickup"date\<close> the resolver emits
  \<open>t."pickup"date"\<close>, which is not a well-formed column reference.
\<close>

theorem quote_in_name_not_escaped:
  "build_date_expr [''pickup'' @ [DQ] @ ''date''] =
     Inr (''COALESCE(TRY_CAST(t.'' @ [DQ] @ ''pickup'' @ [DQ] @ ''date'' @ [DQ] @ '' AS DATE))'')
   \<and> quoted_generic (''pickup'' @ [DQ] @ ''date'') =
       ''t.'' @ [DQ] @ ''pickup'' @ [DQ] @ ''date'' @ [DQ]
   \<and> \<not> valid_column_ref (quoted_generic (''pickup'' @ [DQ] @ ''date''))"
  by code_simp

section \<open>Statements and the database file\<close>

lemma con_execute_attempted:
  "attempted (snd (con_execute eng s w)) = attempted w @ [s]"
  by (simp add: con_execute_def Let_def split: option.splits)

lemma con_execute_file:
  "out_db w \<noteq> None \<Longrightarrow> out_db (snd (con_execute eng s w)) \<noteq> None"
  by (auto simp: con_execute_def Let_def split: option.splits)

lemma try_idx_returns: "fst (try_idx eng sql w) = None"
  by (simp add: try_idx_def split: prod.splits sum.splits)

lemma try_idx_attempted:
  "attempted (snd (try_idx eng sql w)) = attempted w @ [(sql, [])]"
proof -
  have "snd (try_idx eng sql w) = snd (con_execute eng (sql, []) w)"
    by (simp add: try_idx_def split: prod.splits sum.splits)
  then show ?thesis by (simp add: con_execute_attempted)
qed

lemma try_idx_file:
  "out_db w \<noteq> None \<Longrightarrow> out_db (snd (try_idx eng sql w)) \<noteq> None"
proof -
  assume a: "out_db w \<noteq> None"
  have "snd (try_idx eng sql w) = snd (con_execute eng (sql, []) w)"
    by (simp add: try_idx_def split: prod.splits sum.splits)
  with a show ?thesis by (simp add: con_execute_file)
qed

lemma try_idx_pair: "try_idx eng sql w = (None, snd (try_idx eng sql w))"
  using try_idx_returns [of eng sql w] by (cases "try_idx eng sql w") simp

lemma index_loop_step:
  "index_loop eng (tbl # rest) w =
     index_loop eng rest (snd (try_idx eng (idx_svc_sql tbl) (snd (try_idx eng (idx_date_sql tbl) w))))"
proof -
  obtain w1 where w1: "try_idx eng (idx_date_sql tbl) w = (None, w1)"
    using try_idx_pair by blast
  obtain w2 where w2: "try_idx eng (idx_svc_sql tbl) w1 = (None, w2)"
    using try_idx_pair by blast
  show ?thesis by (simp add: w1 w2)
qed

lemma index_loop_all:
  "fst (index_loop eng tbls w) = None
   \<and> attempted (snd (index_loop eng tbls w)) =
       attempted w @ concat (map (\<lambda>tbl. [(idx_date_sql tbl, []), (idx_svc_sql tbl, [])]) tbls)"
proof (induction tbls arbitrary: w)
  case Nil
  show ?case by simp
next
  case (Cons tbl rest)
  show ?case
    unfolding index_loop_step
    using Cons.IH [of "snd (try_idx eng (idx_svc_sql tbl) (snd (try_idx eng (idx_date_sql tbl) w)))"]
    by (simp add: try_idx_attempted)
qed

lemma index_loop_file:
  "out_db w \<noteq> None \<Longrightarrow> out_db (snd (index_loop eng tbls w)) \<noteq> None"
proof (induction tbls arbitrary: w)
  case Nil
  then show ?case by simp
next
  case (Cons tbl rest)
  show ?case
    unfolding index_loop_step
    by (rule Cons.IH) (simp add: try_idx_file Cons.prems)
qed

text \<open>
  C9. For every engine and every state of the database, the index loop returns
  normally, and it has handed to the engine both index statements of each of the nine
  tables, in order, whichever of them raised.
\<close>

theorem index_failures_ignored:
  "fst (index_loop eng INDEX_TABLES w) = None
   \<and> attempted (snd (index_loop eng INDEX_TABLES w)) =
       attempted w @ concat (map (\<lambda>tbl. [(idx_date_sql tbl, []), (idx_svc_sql tbl, [])])
                                 INDEX_TABLES)
   \<and> length (concat (map (\<lambda>tbl. [(idx_date_sql tbl, []), (idx_svc_sql tbl, [])])
                          INDEX_TABLES)) = 18"
proof -
  have "length (concat (map (\<lambda>tbl. [(idx_date_sql tbl, []), (idx_svc_sql tbl, [])])
                          INDEX_TABLES)) = 18"
    by (simp add: INDEX_TABLES_def)
  with index_loop_all [of eng INDEX_TABLES w] show ?thesis by simp
qed

lemma create_tables_file:
  "out_db w \<noteq> None \<Longrightarrow> out_db (snd (create_tables eng glob fs w)) \<noteq> None"
proof (induction fs arbitrary: w)
  case Nil
  then show ?case by simp
next
  case (Cons f rest)
  obtain tbl rel_glob where f: "f = (tbl, rel_glob)" by (cases f)
  show ?case
  proof (cases "resolve_source glob rel_glob")
    case (Inl e)
    with Cons.prems f show ?thesis by simp
  next
    case (Inr pn)
    obtain pat n where pn: "pn = (pat, n)" by (cases pn)
    let ?s1 = "(create_table_sql tbl, [pat])"
    obtain r1 w1 where c1: "con_execute eng ?s1 w = (r1, w1)" by (cases "con_execute eng ?s1 w")
    have f1: "out_db w1 \<noteq> None"
      using con_execute_file [OF Cons.prems, of eng ?s1] c1 by simp
    obtain r2 w2 where c2: "con_execute eng (count_sql tbl, []) w1 = (r2, w2)"
      by (cases "con_execute eng (count_sql tbl, []) w1")
    have f2: "out_db w2 \<noteq> None"
      using con_execute_file [OF f1, of eng "(count_sql tbl, [])"] c2 by simp
    show ?thesis
      using Inr pn f c1 c2 f1 f2 Cons.IH [OF f2]
      by (cases r1; cases r2) simp_all
  qed
qed

lemma create_views_file:
  "out_db w \<noteq> None \<Longrightarrow> out_db (snd (create_views eng fs w)) \<noteq> None"
proof (induction fs arbitrary: w)
  case Nil
  then show ?case by simp
next
  case (Cons f rest)
  obtain tbl uu where f: "f = (tbl, uu)" by (cases f)
  obtain r1 w1 where c1: "con_execute eng (pragma_sql tbl, []) w = (r1, w1)"
    by (cases "con_execute eng (pragma_sql tbl, []) w")
  have f1: "out_db w1 \<noteq> None"
    using con_execute_file [OF Cons.prems, of eng "(pragma_sql tbl, [])"] c1 by simp
  show ?case
  proof (cases r1)
    case (Inl e)
    with f c1 f1 show ?thesis by simp
  next
    case (Inr cols)
    show ?thesis
    proof (cases "build_date_expr cols")
      case (Inl e)
      with f c1 f1 \<open>r1 = Inr cols\<close> show ?thesis by simp
    next
      case (Inr date_expr)
      let ?s2 = "(view_sql tbl (has_pickup_date cols) date_expr, [])"
      obtain r2 w2 where c2: "con_execute eng ?s2 w1 = (r2, w2)"
        by (cases "con_execute eng ?s2 w1")
      have f2: "out_db w2 \<noteq> None"
        using con_execute_file [OF f1, of eng ?s2] c2 by simp
      show ?thesis
        using f c1 \<open>r1 = Inr cols\<close> Inr c2 f2 Cons.IH [OF f2]
        by (cases r2) simp_all
    qed
  qed
qed

lemma main_leaves_file: "out_db (snd (main eng glob w0)) \<noteq> None"
proof -
  let ?w2 = "(if out_db w0 \<noteq> None then w0\<lparr>out_db := None\<rparr> else w0)\<lparr>out_db := Some []\<rparr>"
  have f2: "out_db ?w2 \<noteq> None" by simp
  obtain e3 w3 where c3: "create_tables eng glob FILES ?w2 = (e3, w3)"
    by (cases "create_tables eng glob FILES ?w2")
  have f3: "out_db w3 \<noteq> None" using create_tables_file [OF f2, of eng glob FILES] c3 by simp
  obtain e4 w4 where c4: "create_views eng FILES w3 = (e4, w4)"
    by (cases "create_views eng FILES w3")
  have f4: "out_db w4 \<noteq> None" using create_views_file [OF f3, of eng FILES] c4 by simp
  obtain e5 w5 where c5: "index_loop eng INDEX_TABLES w4 = (e5, w5)"
    by (cases "index_loop eng INDEX_TABLES w4")
  have f5: "out_db w5 \<noteq> None" using index_loop_file [OF f4, of eng INDEX_TABLES] c5 by simp
  obtain r6 w6 where c6: "con_execute eng (span_sql, []) w5 = (r6, w6)"
    by (cases "con_execute eng (span_sql, []) w5")
  have f6: "out_db w6 \<noteq> None" using con_execute_file [OF f5, of eng "(span_sql, [])"] c6 by simp
  show ?thesis
    unfolding main_def Let_def
    using c3 c4 c5 c6 f3 f4 f5 f6
    by (cases e3; cases e4; cases e5; cases r6) simp_all
qed

lemma create_tables_missing:
  assumes "(tbl, rel) \<in> set fs" and "glob (path_join DATA_DIR rel) = []"
  shows "fst (create_tables eng glob fs w) \<noteq> None"
  using assms
proof (induction fs arbitrary: w)
  case Nil
  then show ?case by simp
next
  case (Cons f rest)
  obtain tbl' rel' where f: "f = (tbl', rel')" by (cases f)
  show ?case
  proof (cases "glob (path_join DATA_DIR rel') = []")
    case True
    with f show ?thesis by (simp add: resolve_source_def)
  next
    case False
    then have rs: "resolve_source glob rel' =
        Inr (path_join DATA_DIR rel', length (glob (path_join DATA_DIR rel')))"
      by (simp add: resolve_source_def Let_def)
    from False Cons.prems f have mem: "(tbl, rel) \<in> set rest" by auto
    let ?s1 = "(create_table_sql tbl', [path_join DATA_DIR rel'])"
    obtain r1 w1 where c1: "con_execute eng ?s1 w = (r1, w1)" by (cases "con_execute eng ?s1 w")
    obtain r2 w2 where c2: "con_execute eng (count_sql tbl', []) w1 = (r2, w2)"
      by (cases "con_execute eng (count_sql tbl', []) w1")
    show ?thesis
      using f rs c1 c2 Cons.IH [OF mem Cons.prems(2), of w2]
      by (cases r1; cases r2) simp_all
  qed
qed

lemma main_missing_input_raises:
  assumes "(tbl, rel) \<in> set FILES" and "glob (path_join DATA_DIR rel) = []"
  shows "fst (main eng glob w0) \<noteq> None"
proof -
  let ?w2 = "(if out_db w0 \<noteq> None then w0\<lparr>out_db := None\<rparr> else w0)\<lparr>out_db := Some []\<rparr>"
  obtain e3 w3 where c3: "create_tables eng glob FILES ?w2 = (e3, w3)"
    by (cases "create_tables eng glob FILES ?w2")
  have "e3 \<noteq> None"
    using create_tables_missing [of tbl rel FILES glob eng ?w2] assms c3 by simp
  then show ?thesis
    unfolding main_def Let_def using c3 by auto
qed

section \<open>Claims about the build\<close>

text \<open>
  C3. A dataset whose pattern matches no file ends the run with \<open>FileNotFoundError\<close>
  (\<open>main_missing_input_raises\<close>), but the database file is there afterwards
  (\<open>main_leaves_file\<close>): \<open>duckdb.connect\<close> has created it before the first pattern is
  resolved. With files for the first dataset only, the run ends with the error and leaves
  a database that holds the table \<open>dim_taxi_zone\<close> and nothing else; with no files at
  all, it replaces the previous database by an empty one.
\<close>

theorem missing_input_leaves_database:
  "main (\<lambda>db s. Some [])
        (\<lambda>p. if p = ''data/01_dim_taxi_zone/*.parquet''
              then [''data/01_dim_taxi_zone/part-0.parquet''] else [])
        \<lparr>out_db = None, attempted = []\<rparr>
     = (Some FileNotFoundError,
        \<lparr>out_db = Some [(create_table_sql ''dim_taxi_zone'', [''data/01_dim_taxi_zone/*.parquet'']),
                        (count_sql ''dim_taxi_zone'', [])],
         attempted = [(create_table_sql ''dim_taxi_zone'', [''data/01_dim_taxi_zone/*.parquet'']),
                      (count_sql ''dim_taxi_zone'', [])]\<rparr>)
   \<and> main (\<lambda>db s. Some []) (\<lambda>p. []) \<lparr>out_db = Some [(''previous build'', [])], attempted = []\<rparr>
     = (Some FileNotFoundError, \<lparr>out_db = Some [], attempted = []\<rparr>)"
  by code_simp

section \<open>Claims about the dashboard filter\<close>

lemma date_stage_off:
  assumes "''pickup_date'' \<notin> set (columns df)
           \<or> list_all (\<lambda>r. to_datetime (r ''pickup_date'') = None) (rows df)"
  shows "\<not> (''pickup_date'' \<in> set (columns df)
            \<and> list_ex (\<lambda>p. p \<noteq> None) (map (\<lambda>r. to_datetime (r ''pickup_date'')) (rows df)))"
  using assms by (auto simp: list_all_iff list_ex_iff)

lemma filter_date_range:
  "filter (\<lambda>r. cell_ge (r ''pickup_date'') s \<and> cell_le (r ''pickup_date'') e)
          (map (\<lambda>r. r(''pickup_date'' := dt_date (to_datetime (r ''pickup_date'')))) rs)
   = map (\<lambda>r. r(''pickup_date'' := dt_date (to_datetime (r ''pickup_date''))))
         (filter (\<lambda>r. case to_datetime (r ''pickup_date'') of
                         None \<Rightarrow> False | Some d \<Rightarrow> s \<le> d \<and> d \<le> e) rs)"
  by (induction rs) (auto simp: cell_ge_def cell_le_def dt_date_def split: option.splits)

text \<open>
  C10. On a frame that is not empty: when there is no \<open>pickup_date\<close> column, or no cell
  of it parses to a date, no row is dropped for its date (the rows that remain are those
  the service filter keeps), and with an empty service list the frame comes back as it
  is; when the column is there and some cell parses, and the service list is empty, the
  rows that remain are exactly those whose date parses and lies between the two bounds,
  with no service filter applied. The columns are never changed.
\<close>

theorem date_filter_only_with_dates:
  assumes "\<not> empty_frame df"
  shows
    "(''pickup_date'' \<notin> set (columns df)
        \<or> list_all (\<lambda>r. to_datetime (r ''pickup_date'') = None) (rows df)
      \<longrightarrow> rows (filter_by_date_service to_datetime df s e services) =
            (if ''service_type'' \<in> set (columns df) \<and> services \<noteq> []
             then filter (\<lambda>r. isin (r ''service_type'') services) (rows df)
             else rows df))
     \<and> ((''pickup_date'' \<notin> set (columns df)
           \<or> list_all (\<lambda>r. to_datetime (r ''pickup_date'') = None) (rows df))
          \<and> services = []
         \<longrightarrow> filter_by_date_service to_datetime df s e services = df)
     \<and> (''pickup_date'' \<in> set (columns df)
          \<and> list_ex (\<lambda>r. to_datetime (r ''pickup_date'') \<noteq> None) (rows df)
          \<and> services = []
         \<longrightarrow> rows (filter_by_date_service to_datetime df s e services) =
               map (\<lambda>r. r(''pickup_date'' := dt_date (to_datetime (r ''pickup_date''))))
                   (filter (\<lambda>r. case to_datetime (r ''pickup_date'') of
                                   None \<Rightarrow> False | Some d \<Rightarrow> s \<le> d \<and> d \<le> e) (rows df)))
     \<and> columns (filter_by_date_service to_datetime df s e services) = columns df"
proof (intro conjI impI)
  assume off: "''pickup_date'' \<notin> set (columns df)
        \<or> list_all (\<lambda>r. to_datetime (r ''pickup_date'') = None) (rows df)"
  show "rows (filter_by_date_service to_datetime df s e services) =
            (if ''service_type'' \<in> set (columns df) \<and> services \<noteq> []
             then filter (\<lambda>r. isin (r ''service_type'') services) (rows df)
             else rows df)"
    using assms date_stage_off [OF off]
    by (auto simp: filter_by_date_service_def Let_def)
next
  assume "(''pickup_date'' \<notin> set (columns df)
        \<or> list_all (\<lambda>r. to_datetime (r ''pickup_date'') = None) (rows df)) \<and> services = []"
  then have off: "''pickup_date'' \<notin> set (columns df)
        \<or> list_all (\<lambda>r. to_datetime (r ''pickup_date'') = None) (rows df)"
    and sv: "services = []" by simp_all
  show "filter_by_date_service to_datetime df s e services = df"
    using assms date_stage_off [OF off] sv
    by (auto simp: filter_by_date_service_def Let_def)
next
  assume a: "''pickup_date'' \<in> set (columns df)
          \<and> list_ex (\<lambda>r. to_datetime (r ''pickup_date'') \<noteq> None) (rows df)
          \<and> services = []"
  then have on: "list_ex (\<lambda>p. p \<noteq> None) (map (\<lambda>r. to_datetime (r ''pickup_date'')) (rows df))"
    by (auto simp: list_ex_iff)
  show "rows (filter_by_date_service to_datetime df s e services) =
               map (\<lambda>r. r(''pickup_date'' := dt_date (to_datetime (r ''pickup_date''))))
                   (filter (\<lambda>r. case to_datetime (r ''pickup_date'') of
                                   None \<Rightarrow> False | Some d \<Rightarrow> s \<le> d \<and> d \<le> e) (rows df))"
    using assms a on
    by (simp add: filter_by_date_service_def Let_def filter_date_range)
next
  show "columns (filter_by_date_service to_datetime df s e services) = columns df"
    by (simp add: filter_by_date_service_def Let_def)
qed

theorem date_filter_only_with_dates_witness:
  "\<not> empty_frame \<lparr>columns = [''service_type'', ''trips''],
                    rows = [(\<lambda>c. NaT)(''service_type'' := StrCell ''yellow'')]\<rparr>
   \<and> filter_by_date_service (\<lambda>c. case c of DateCell d \<Rightarrow> Some d | _ \<Rightarrow> None)
        \<lparr>columns = [''service_type'', ''trips''],
         rows = [(\<lambda>c. NaT)(''service_type'' := StrCell ''yellow'')]\<rparr> 1 9 []
       = \<lparr>columns = [''service_type'', ''trips''],
          rows = [(\<lambda>c. NaT)(''service_type'' := StrCell ''yellow'')]\<rparr>
   \<and> \<not> empty_frame \<lparr>columns = [''pickup_date'', ''trips''],
                    rows = [(\<lambda>c. NaT)(''pickup_date'' := DateCell 5),
                            (\<lambda>c. NaT)(''pickup_date'' := DateCell 20),
                            (\<lambda>c. NaT)]\<rparr>
   \<and> map (\<lambda>r. r ''pickup_date'')
        (rows (filter_by_date_service (\<lambda>c. case c of DateCell d \<Rightarrow> Some d | _ \<Rightarrow> None)
           \<lparr>columns = [''pickup_date'', ''trips''],
            rows = [(\<lambda>c. NaT)(''pickup_date'' := DateCell 5),
                    (\<lambda>c. NaT)(''pickup_date'' := DateCell 20),
                    (\<lambda>c. NaT)]\<rparr> 1 9 []))
       = [DateCell 5]"
proof -
  let ?df = "\<lparr>columns = [''service_type'', ''trips''],
              rows = [(\<lambda>c. NaT)(''service_type'' := StrCell ''yellow'')]\<rparr>"
  let ?dg = "\<lparr>columns = [''pickup_date'', ''trips''],
              rows = [(\<lambda>c. NaT)(''pickup_date'' := DateCell 5),
                      (\<lambda>c. NaT)(''pickup_date'' := DateCell 20),
                      (\<lambda>c. NaT)]\<rparr>"
  let ?td = "\<lambda>c. case c of DateCell d \<Rightarrow> Some d | _ \<Rightarrow> None"
  have h: "\<not> empty_frame ?df"
    by (simp add: empty_frame_def)
  have a: "''pickup_date'' \<notin> set (columns ?df)"
    by simp
  from date_filter_only_with_dates [OF h, of ?td 1 9 "[]"] a
  have off: "filter_by_date_service ?td ?df 1 9 [] = ?df"
    by blast
  have g: "\<not> empty_frame ?dg"
    by (simp add: empty_frame_def)
  have b: "''pickup_date'' \<in> set (columns ?dg)
           \<and> list_ex (\<lambda>r. ?td (r ''pickup_date'') \<noteq> None) (rows ?dg)
           \<and> ([] :: string list) = []"
    by simp
  from date_filter_only_with_dates [OF g, of ?td 1 9 "[]"] b
  have "rows (filter_by_date_service ?td ?dg 1 9 []) =
          map (\<lambda>r. r(''pickup_date'' := dt_date (?td (r ''pickup_date''))))
              (filter (\<lambda>r. case ?td (r ''pickup_date'') of
                              None \<Rightarrow> False | Some d \<Rightarrow> 1 \<le> d \<and> d \<le> 9) (rows ?dg))"
    by blast
  then have on: "map (\<lambda>r. r ''pickup_date'') (rows (filter_by_date_service ?td ?dg 1 9 []))
                   = [DateCell 5]"
    by (simp add: dt_date_def)
  from h off g on show ?thesis by (intro conjI)
qed

section \<open>The structured statement and the text\<close>

lemma lower_pickup_date: "lower ''pickup_date'' = ''pickup_date''"
  by code_simp

lemma render_preferred:
  "map render_cast (preferred_terms cols) =
     map (\<lambda>n. try_cast_date (quoted_pref (last (filter (\<lambda>c. lower c = n) cols))))
         (filter (\<lambda>n. list_ex (\<lambda>c. lower c = n) cols) DATE_CANDIDATES)"
  by (simp add: preferred_terms_def quoted_pref_def Let_def)

lemma render_generic:
  "map render_cast (generic_terms cols) =
     map (\<lambda>c. try_cast_date (quoted_generic c)) (filter is_generic_date cols)"
  by (simp add: generic_terms_def quoted_generic_def)

lemma preferred_terms_empty:
  "preferred_terms cols = [] \<longleftrightarrow> \<not> list_ex (\<lambda>c. lower c \<in> set DATE_CANDIDATES) cols"
  using candidates_matched_empty [of cols] by (simp add: preferred_terms_def)

lemma generic_terms_empty:
  "generic_terms cols = [] \<longleftrightarrow> \<not> list_ex is_generic_date cols"
  by (auto simp: generic_terms_def filter_empty_conv list_ex_iff)

lemma no_generic_no_key: "\<not> list_ex is_generic_date cols \<Longrightarrow> \<not> list_ex is_date_key cols"
  using date_key_is_generic by (auto simp: list_ex_iff)

lemma build_date_expr_render: "build_date_expr cols = Inr (render_date (date_term_of cols))"
proof -
  consider (p) "list_ex (\<lambda>c. lower c \<in> set DATE_CANDIDATES) cols"
    | (g) "\<not> list_ex (\<lambda>c. lower c \<in> set DATE_CANDIDATES) cols" "list_ex is_generic_date cols"
    | (n) "\<not> list_ex (\<lambda>c. lower c \<in> set DATE_CANDIDATES) cols" "\<not> list_ex is_generic_date cols"
    by blast
  then show ?thesis
  proof cases
    case p
    then have "date_term_of cols = Coalesce (preferred_terms cols)"
      by (simp add: date_term_of_def preferred_terms_empty)
    with p show ?thesis
      by (simp add: build_date_expr_cases render_preferred)
  next
    case g
    then have "date_term_of cols = Coalesce (generic_terms cols)"
      by (simp add: date_term_of_def preferred_terms_empty generic_terms_empty)
    with g show ?thesis
      by (simp add: build_date_expr_cases render_generic)
  next
    case n
    then have "date_term_of cols = NullDate"
      by (simp add: date_term_of_def preferred_terms_empty generic_terms_empty)
    with n no_generic_no_key [OF n(2)] show ?thesis
      by (simp add: build_date_expr_cases)
  qed
qed

lemma view_sql_render:
  "view_sql tbl (has_pickup_date cols) (render_date (date_term_of cols)) =
     render_view (view_stmt_of tbl cols)"
  by (simp add: view_sql_def render_view_def view_stmt_of_def)

section \<open>The view as a table\<close>

lemma zip_filter_fst:
  "length cols = length row \<Longrightarrow>
     zip (filter P cols) (map snd (filter (\<lambda>(c, v). P c) (zip cols row)))
       = filter (\<lambda>(c, v). P c) (zip cols row)"
  by (induction cols row rule: list_induct2) auto

lemma length_star_values:
  "length row = length cols \<Longrightarrow>
     length (star_values st cols row) = length (filter (star_keeps st) cols)"
proof -
  assume "length row = length cols"
  then have "length cols = length row" by simp
  then have "length (filter (\<lambda>(c, v). star_keeps st c) (zip cols row))
             = length (filter (star_keeps st) cols)"
    by (induction cols row rule: list_induct2) auto
  then show ?thesis by (simp add: star_values_def)
qed

lemma zip_view_row:
  assumes "length row = length cols"
  shows "zip (filter (star_keeps st) cols @ [n]) (star_values st cols row @ [v])
           = filter (\<lambda>(c, v). star_keeps st c) (zip cols row) @ [(n, v)]"
proof -
  from assms have l: "length cols = length row" by simp
  have "zip (filter (star_keeps st) cols @ [n]) (star_values st cols row @ [v])
          = zip (filter (star_keeps st) cols) (star_values st cols row) @ [(n, v)]"
    using length_star_values [OF assms, of st] by simp
  then show ?thesis
    by (simp add: star_values_def zip_filter_fst [OF l])
qed

lemma filter_filter_keep: "(\<And>x. Q x \<Longrightarrow> P x) \<Longrightarrow> filter Q (filter P xs) = filter Q xs"
  by (induction xs) auto

lemma star_of_view:
  "lower c \<noteq> ''pickup_date'' \<Longrightarrow> star_keeps (v_star (view_stmt_of tbl cols)) c"
  by (simp add: view_stmt_of_def lower_pickup_date)

lemma view_row_without_pickup_date:
  assumes "length row = length cols"
  shows "map snd (filter (\<lambda>(c, v). lower c \<noteq> ''pickup_date'')
            (zip (filter (star_keeps (v_star (view_stmt_of tbl cols))) cols @ [''pickup_date''])
                 (star_values (v_star (view_stmt_of tbl cols)) cols row @ [x])))
         = map snd (filter (\<lambda>(c, v). lower c \<noteq> ''pickup_date'') (zip cols row))"
proof -
  let ?st = "v_star (view_stmt_of tbl cols)"
  let ?Q = "\<lambda>(c, v :: sql_value). lower c \<noteq> ''pickup_date''"
  let ?P = "\<lambda>(c, v :: sql_value). star_keeps ?st c"
  have last: "filter ?Q [(''pickup_date'', x)] = []"
    by (simp add: lower_pickup_date)
  have keep: "filter ?Q (filter ?P (zip cols row)) = filter ?Q (zip cols row)"
    by (rule filter_filter_keep) (auto simp: star_of_view)
  have "filter ?Q (zip (filter (star_keeps ?st) cols @ [''pickup_date''])
                       (star_values ?st cols row @ [x]))
          = filter ?Q (filter ?P (zip cols row) @ [(''pickup_date'', x)])"
    by (simp only: zip_view_row [OF assms])
  also have "\<dots> = filter ?Q (filter ?P (zip cols row)) @ filter ?Q [(''pickup_date'', x)]"
    by (simp only: filter_append)
  also have "\<dots> = filter ?Q (zip cols row)"
    by (simp only: last keep append_Nil2)
  finally show ?thesis by (simp only:)
qed

lemma view_cols_without_pickup_date:
  "filter (\<lambda>c. lower c \<noteq> ''pickup_date'')
          (filter (star_keeps (v_star (view_stmt_of tbl cols))) cols @ [''pickup_date''])
     = filter (\<lambda>c. lower c \<noteq> ''pickup_date'') cols"
proof -
  let ?st = "v_star (view_stmt_of tbl cols)"
  let ?Q = "\<lambda>c. lower c \<noteq> ''pickup_date''"
  have last: "filter ?Q [''pickup_date''] = []"
    by (simp add: lower_pickup_date)
  have keep: "filter ?Q (filter (star_keeps ?st) cols) = filter ?Q cols"
    by (rule filter_filter_keep) (simp add: star_of_view)
  have "filter ?Q (filter (star_keeps ?st) cols @ [''pickup_date''])
          = filter ?Q (filter (star_keeps ?st) cols) @ filter ?Q [''pickup_date'']"
    by (simp only: filter_append)
  also have "\<dots> = filter ?Q cols"
    by (simp only: last keep append_Nil2)
  finally show ?thesis .
qed

text \<open>
  C5. The view of a table has one row for each row of the table, in the same order, and
  without the columns named \<open>pickup_date\<close> the view and the table are the same relation:
  the same column names and, row by row, the same values.
\<close>

theorem view_same_rows:
  assumes "well_formed t"
  shows "length (t_rows (view_of parse (view_stmt_of tbl (t_cols t)) t)) = length (t_rows t)
         \<and> without_pickup_date (view_of parse (view_stmt_of tbl (t_cols t)) t)
             = without_pickup_date t"
proof -
  have rows: "\<And>row. row \<in> set (t_rows t) \<Longrightarrow> length row = length (t_cols t)"
    using assms by (simp add: well_formed_def list_all_iff)
  let ?v = "view_of parse (view_stmt_of tbl (t_cols t)) t"
  have c: "t_cols (without_pickup_date ?v) = t_cols (without_pickup_date t)"
    by (simp only: without_pickup_date_def view_of_def table.simps
        view_cols_without_pickup_date)
  have r: "t_rows (without_pickup_date ?v) = t_rows (without_pickup_date t)"
    unfolding without_pickup_date_def view_of_def table.simps map_map comp_def
    by (rule map_cong) (simp_all only: view_row_without_pickup_date [OF rows])
  have l: "length (t_rows ?v) = length (t_rows t)"
    by (simp add: view_of_def)
  from c r have "without_pickup_date ?v = without_pickup_date t"
    by (simp add: without_pickup_date_def)
  with l show ?thesis by simp
qed

theorem view_same_rows_witness:
  "well_formed \<lparr>t_cols = [''trips'', ''Pickup_Date'', ''date''],
                t_rows = [[SqlOther ''3'', SqlDate 5, SqlNull], [SqlOther ''4'', SqlNull, SqlDate 7]]\<rparr>
   \<and> without_pickup_date (view_of (\<lambda>s. None)
         (view_stmt_of ''pu_zone_daily'' [''trips'', ''Pickup_Date'', ''date''])
         \<lparr>t_cols = [''trips'', ''Pickup_Date'', ''date''],
          t_rows = [[SqlOther ''3'', SqlDate 5, SqlNull], [SqlOther ''4'', SqlNull, SqlDate 7]]\<rparr>)
       = \<lparr>t_cols = [''trips'', ''date''],
          t_rows = [[SqlOther ''3'', SqlNull], [SqlOther ''4'', SqlDate 7]]\<rparr>"
proof -
  let ?cols = "[''trips'', ''Pickup_Date'', ''date'']"
  let ?t = "\<lparr>t_cols = ?cols,
             t_rows = [[SqlOther ''3'', SqlDate 5, SqlNull], [SqlOther ''4'', SqlNull, SqlDate 7]]\<rparr>"
  have tc: "t_cols ?t = ?cols" by simp
  have h: "well_formed ?t"
    by (simp add: well_formed_def)
  have e: "without_pickup_date ?t =
             \<lparr>t_cols = [''trips'', ''date''],
              t_rows = [[SqlOther ''3'', SqlNull], [SqlOther ''4'', SqlDate 7]]\<rparr>"
    by code_simp
  from view_same_rows [OF h, of "\<lambda>s. None" "''pu_zone_daily''"]
  have "without_pickup_date (view_of (\<lambda>s. None) (view_stmt_of ''pu_zone_daily'' (t_cols ?t)) ?t)
          = without_pickup_date ?t"
    by (rule conjunct2)
  then have "without_pickup_date (view_of (\<lambda>s. None) (view_stmt_of ''pu_zone_daily'' ?cols) ?t)
          = \<lparr>t_cols = [''trips'', ''date''],
             t_rows = [[SqlOther ''3'', SqlNull], [SqlOther ''4'', SqlDate 7]]\<rparr>"
    by (simp only: tc e)
  with h show ?thesis by (rule conjI)
qed

lemma row_value_last:
  assumes "length vals = length names" and "lower n \<notin> set (map lower names)"
  shows "row_value (names @ [n]) (vals @ [x]) n = x"
proof -
  have z: "zip (map lower (names @ [n])) (vals @ [x])
             = zip (map lower names) vals @ [(lower n, x)]"
    using assms(1) by simp
  have "map fst (zip (map lower names) vals) = map lower names"
    using assms(1) by simp
  then have "fst ` set (zip (map lower names) vals) = set (map lower names)"
    by (metis set_map)
  then have "map_of (zip (map lower names) vals) (lower n) = None"
    using assms(2) by (simp only: map_of_eq_None_iff not_False_eq_True)
  then show ?thesis
    unfolding row_value_def z by (simp add: map_add_def)
qed

lemma row_value_lower:
  "lower a = lower b \<Longrightarrow> row_value cols row a = row_value cols row b"
  by (simp add: row_value_def)

lemma view_pickup_date_value:
  assumes "length row = length cols"
  shows "row_value (filter (star_keeps (v_star (view_stmt_of tbl cols))) cols @ [''pickup_date''])
           (star_values (v_star (view_stmt_of tbl cols)) cols row @ [x]) ''pickup_date'' = x"
proof (rule row_value_last)
  show "length (star_values (v_star (view_stmt_of tbl cols)) cols row)
          = length (filter (star_keeps (v_star (view_stmt_of tbl cols))) cols)"
    by (rule length_star_values [OF assms])
next
  show "lower ''pickup_date''
          \<notin> set (map lower (filter (star_keeps (v_star (view_stmt_of tbl cols))) cols))"
  proof (cases "has_pickup_date cols")
    case True
    then show ?thesis by (auto simp: view_stmt_of_def lower_pickup_date)
  next
    case False
    then show ?thesis
      by (auto simp: view_stmt_of_def has_pickup_date_def list_ex_iff lower_pickup_date)
  qed
qed

lemma candidates_head: "DATE_CANDIDATES = ''pickup_date'' # tl DATE_CANDIDATES"
  by (simp add: DATE_CANDIDATES_def)

lemma preferred_terms_pickup_date:
  assumes "has_pickup_date cols"
  shows "\<exists>q orig rest. preferred_terms cols = CastDate q orig # rest
           \<and> lower orig = ''pickup_date''"
proof -
  let ?orig = "last (filter (\<lambda>c. lower c = ''pickup_date'') cols)"
  let ?mk = "\<lambda>cname. let orig = last (filter (\<lambda>c. lower c = cname) cols)
                       in CastDate (lower orig = ''date'' \<or> has_special orig) orig"
  let ?hit = "\<lambda>cname. list_ex (\<lambda>c. lower c = cname) cols"
  from assms have ne: "filter (\<lambda>c. lower c = ''pickup_date'') cols \<noteq> []"
    by (simp add: has_pickup_date_def list_ex_iff filter_empty_conv)
  then have "?orig \<in> set (filter (\<lambda>c. lower c = ''pickup_date'') cols)"
    by (rule last_in_set)
  then have lo: "lower ?orig = ''pickup_date''" by simp
  from assms have hit: "?hit ''pickup_date''"
    by (simp add: has_pickup_date_def)
  have "preferred_terms cols = map ?mk (filter ?hit (''pickup_date'' # tl DATE_CANDIDATES))"
    unfolding preferred_terms_def by (subst candidates_head) (rule refl)
  also have "\<dots> = ?mk ''pickup_date'' # map ?mk (filter ?hit (tl DATE_CANDIDATES))"
    using hit by (simp only: filter.simps if_True list.map)
  finally have "preferred_terms cols =
      CastDate (lower ?orig = ''date'' \<or> has_special ?orig) ?orig
        # map ?mk (filter ?hit (tl DATE_CANDIDATES))"
    by (simp only: Let_def)
  with lo show ?thesis by blast
qed

lemma date_term_pickup_date:
  assumes "has_pickup_date cols"
    and "row_value cols row ''pickup_date'' = SqlDate d"
  shows "eval_date parse cols row (date_term_of cols) = SqlDate d"
proof -
  from preferred_terms_pickup_date [OF assms(1)] obtain q orig rest
    where p: "preferred_terms cols = CastDate q orig # rest"
      and lo: "lower orig = ''pickup_date''" by blast
  from lo have "lower orig = lower ''pickup_date''" by (simp only: lower_pickup_date)
  then have "row_value cols row orig = row_value cols row ''pickup_date''"
    by (rule row_value_lower)
  with assms(2) have "row_value cols row orig = SqlDate d" by simp
  with p show ?thesis
    by (simp add: date_term_of_def cast_to_date_def)
qed

lemma view_cols_exclude:
  assumes "has_pickup_date cols"
  shows "filter (star_keeps (v_star (view_stmt_of tbl cols))) cols
           = filter (\<lambda>c. lower c \<noteq> ''pickup_date'') cols"
proof -
  have "star_keeps (StarExclude ''pickup_date'') = (\<lambda>c. lower c \<noteq> ''pickup_date'')"
    by (rule ext) (simp add: lower_pickup_date)
  with assms show ?thesis by (simp add: view_stmt_of_def)
qed

lemma one_pickup_date:
  "length (filter (\<lambda>c. lower c = ''pickup_date'')
             (filter (\<lambda>c. lower c \<noteq> ''pickup_date'') cols @ [''pickup_date''])) = 1"
proof -
  have "filter (\<lambda>c. lower c = ''pickup_date'') (filter (\<lambda>c. lower c \<noteq> ''pickup_date'') cols) = []"
    by (simp add: filter_empty_conv)
  then show ?thesis by (simp add: lower_pickup_date)
qed

text \<open>
  C4. For a table that has a column named \<open>pickup_date\<close> (in any case), the view's
  columns are the table's other columns followed by one column \<open>pickup_date\<close>, so
  exactly one column of the view has that name; its value in each row is the value of
  the date expression on the table's row, and where the table's \<open>pickup_date\<close> holds a
  date the view holds the same date.
\<close>

theorem existing_pickup_date_replaced:
  assumes "well_formed t" and "has_pickup_date (t_cols t)"
  shows "t_cols (view_of parse (view_stmt_of tbl (t_cols t)) t)
           = filter (\<lambda>c. lower c \<noteq> ''pickup_date'') (t_cols t) @ [''pickup_date'']
         \<and> length (filter (\<lambda>c. lower c = ''pickup_date'')
                     (t_cols (view_of parse (view_stmt_of tbl (t_cols t)) t))) = 1
         \<and> list_all2
             (\<lambda>row vrow.
                row_value (t_cols (view_of parse (view_stmt_of tbl (t_cols t)) t)) vrow ''pickup_date''
                  = eval_date parse (t_cols t) row (date_term_of (t_cols t))
                \<and> (\<forall>d. row_value (t_cols t) row ''pickup_date'' = SqlDate d
                     \<longrightarrow> row_value (t_cols (view_of parse (view_stmt_of tbl (t_cols t)) t)) vrow
                           ''pickup_date'' = SqlDate d))
             (t_rows t) (t_rows (view_of parse (view_stmt_of tbl (t_cols t)) t))"
proof -
  let ?cols = "t_cols t"
  let ?st = "v_star (view_stmt_of tbl ?cols)"
  let ?v = "view_of parse (view_stmt_of tbl ?cols) t"
  let ?vcols = "filter (star_keeps ?st) ?cols @ [''pickup_date'']"
  have rows: "\<And>row. row \<in> set (t_rows t) \<Longrightarrow> length row = length ?cols"
    using assms(1) by (simp add: well_formed_def list_all_iff)
  have vc: "t_cols ?v = ?vcols"
    by (simp add: view_of_def)
  have dt: "v_date (view_stmt_of tbl ?cols) = date_term_of ?cols"
    by (simp add: view_stmt_of_def)
  have c1: "t_cols ?v = filter (\<lambda>c. lower c \<noteq> ''pickup_date'') ?cols @ [''pickup_date'']"
    by (simp only: vc view_cols_exclude [OF assms(2)])
  have c2: "length (filter (\<lambda>c. lower c = ''pickup_date'') (t_cols ?v)) = 1"
    by (simp only: c1 one_pickup_date)
  have vr: "t_rows ?v = map (\<lambda>row. star_values ?st ?cols row
                                  @ [eval_date parse ?cols row (date_term_of ?cols)]) (t_rows t)"
    by (simp add: view_of_def dt)
  have val: "\<And>row. row \<in> set (t_rows t) \<Longrightarrow>
      row_value ?vcols (star_values ?st ?cols row
          @ [eval_date parse ?cols row (date_term_of ?cols)]) ''pickup_date''
        = eval_date parse ?cols row (date_term_of ?cols)"
    by (rule view_pickup_date_value) (rule rows)
  have c3: "list_all2
             (\<lambda>row vrow.
                row_value (t_cols ?v) vrow ''pickup_date''
                  = eval_date parse ?cols row (date_term_of ?cols)
                \<and> (\<forall>d. row_value ?cols row ''pickup_date'' = SqlDate d
                     \<longrightarrow> row_value (t_cols ?v) vrow ''pickup_date'' = SqlDate d))
             (t_rows t) (t_rows ?v)"
    unfolding vr vc list_all2_map2 list_all2_same
  proof (intro ballI conjI allI impI)
    fix row
    assume r: "row \<in> set (t_rows t)"
    show "row_value ?vcols (star_values ?st ?cols row
              @ [eval_date parse ?cols row (date_term_of ?cols)]) ''pickup_date''
            = eval_date parse ?cols row (date_term_of ?cols)"
      by (rule val [OF r])
  next
    fix row d
    assume r: "row \<in> set (t_rows t)"
      and d: "row_value ?cols row ''pickup_date'' = SqlDate d"
    have "row_value ?vcols (star_values ?st ?cols row
              @ [eval_date parse ?cols row (date_term_of ?cols)]) ''pickup_date''
            = eval_date parse ?cols row (date_term_of ?cols)"
      by (rule val [OF r])
    also have "\<dots> = SqlDate d"
      by (rule date_term_pickup_date [OF assms(2) d])
    finally show "row_value ?vcols (star_values ?st ?cols row
              @ [eval_date parse ?cols row (date_term_of ?cols)]) ''pickup_date''
            = SqlDate d" .
  qed
  from c1 c2 c3 show ?thesis by (intro conjI)
qed

theorem existing_pickup_date_replaced_witness:
  "well_formed \<lparr>t_cols = [''trips'', ''Pickup_Date'', ''date''],
                t_rows = [[SqlOther ''3'', SqlDate 5, SqlNull], [SqlOther ''4'', SqlNull, SqlDate 7]]\<rparr>
   \<and> has_pickup_date [''trips'', ''Pickup_Date'', ''date'']
   \<and> t_cols (view_of (\<lambda>s. None)
         (view_stmt_of ''pu_zone_daily'' [''trips'', ''Pickup_Date'', ''date''])
         \<lparr>t_cols = [''trips'', ''Pickup_Date'', ''date''],
          t_rows = [[SqlOther ''3'', SqlDate 5, SqlNull], [SqlOther ''4'', SqlNull, SqlDate 7]]\<rparr>)
       = [''trips'', ''date'', ''pickup_date'']
   \<and> t_rows (view_of (\<lambda>s. None)
         (view_stmt_of ''pu_zone_daily'' [''trips'', ''Pickup_Date'', ''date''])
         \<lparr>t_cols = [''trips'', ''Pickup_Date'', ''date''],
          t_rows = [[SqlOther ''3'', SqlDate 5, SqlNull], [SqlOther ''4'', SqlNull, SqlDate 7]]\<rparr>)
       = [[SqlOther ''3'', SqlNull, SqlDate 5], [SqlOther ''4'', SqlDate 7, SqlDate 7]]"
proof -
  let ?cols = "[''trips'', ''Pickup_Date'', ''date'']"
  let ?t = "\<lparr>t_cols = ?cols,
             t_rows = [[SqlOther ''3'', SqlDate 5, SqlNull], [SqlOther ''4'', SqlNull, SqlDate 7]]\<rparr>"
  have tc: "t_cols ?t = ?cols" by simp
  have h1: "well_formed ?t"
    by (simp add: well_formed_def)
  have h2: "has_pickup_date ?cols"
    by code_simp
  have h2': "has_pickup_date (t_cols ?t)"
    by (simp only: tc h2)
  have e: "filter (\<lambda>c. lower c \<noteq> ''pickup_date'') ?cols @ [''pickup_date'']
             = [''trips'', ''date'', ''pickup_date'']"
    by code_simp
  have r: "t_rows (view_of (\<lambda>s. None) (view_stmt_of ''pu_zone_daily'' ?cols) ?t)
             = [[SqlOther ''3'', SqlNull, SqlDate 5], [SqlOther ''4'', SqlDate 7, SqlDate 7]]"
    by code_simp
  from existing_pickup_date_replaced [OF h1 h2', of "\<lambda>s. None" "''pu_zone_daily''"]
  have "t_cols (view_of (\<lambda>s. None) (view_stmt_of ''pu_zone_daily'' (t_cols ?t)) ?t)
          = filter (\<lambda>c. lower c \<noteq> ''pickup_date'') (t_cols ?t) @ [''pickup_date'']"
    by (rule conjunct1)
  then have c: "t_cols (view_of (\<lambda>s. None) (view_stmt_of ''pu_zone_daily'' ?cols) ?t)
          = [''trips'', ''date'', ''pickup_date'']"
    by (simp only: tc e)
  from h1 h2 c r show ?thesis by (intro conjI)
qed

end
